theory Spec2Isabelle
  imports Main "HOL-Library.Word"
begin

section \<open>Launch parameters (gunrock/cuda/launch\_box.hxx)\<close>

text \<open>
  \<^verbatim>\<open>launch_params_t<block_dimensions_, grid_dimensions_, shared_memory_bytes_ = 0>\<close>
  holds three \<^verbatim>\<open>unsigned int\<close> enumerators.  The struct is a record of 32-bit words; the
  third template argument has a default, so the embedding takes it as an option.
\<close>

record launch_params =
  block_dimensions :: "32 word"
  grid_dimensions :: "32 word"
  shared_memory_bytes :: "32 word"

definition launch_params_t :: "32 word \<Rightarrow> 32 word \<Rightarrow> 32 word option \<Rightarrow> launch_params" where
  "launch_params_t block_dimensions_v grid_dimensions_v shared_memory_bytes_v =
     \<lparr> block_dimensions = block_dimensions_v,
       grid_dimensions = grid_dimensions_v,
       shared_memory_bytes = (case shared_memory_bytes_v of None \<Rightarrow> 0 | Some s \<Rightarrow> s) \<rparr>"

text \<open>\<^verbatim>\<open>#define TEST_SM 75\<close>: the compute capability the build is made for.\<close>

definition TEST_SM :: "32 word" where
  "TEST_SM = 75"

text \<open>
  What stops a build.  \<^verbatim>\<open>Incomplete_Type\<close>: a class is derived from a specialization that has
  no definition, or whose definition is still being instantiated.  \<^verbatim>\<open>Static_Assert\<close>: a
  \<^verbatim>\<open>static_assert\<close> fired, with its message.  \<^verbatim>\<open>Template_Arguments\<close>: a template received a
  number of arguments that it does not take.  \<^verbatim>\<open>Narrowing_Conversion\<close>: a template argument
  has a value that the type of its parameter cannot hold.
\<close>

datatype build_error =
    Incomplete_Type
  | Static_Assert string
  | Template_Arguments
  | Narrowing_Conversion

text \<open>
  A template argument for an \<^verbatim>\<open>unsigned int\<close> parameter is a converted constant expression:
  an integer constant of any type whose value an \<^verbatim>\<open>unsigned int\<close> holds.
\<close>

definition is_unsigned_int :: "int \<Rightarrow> bool" where
  "is_unsigned_int v \<longleftrightarrow> 0 \<le> v \<and> v < 2 ^ 32"

text \<open>
  \<^verbatim>\<open>sm_launch_params_t<combined_ver_, launch_params_args_v...>\<close> derives from
  \<^verbatim>\<open>launch_params_t<launch_params_args_v...>\<close> and adds the enumerator \<^verbatim>\<open>combined_ver\<close>:
  the record extends \<^typ>\<open>launch_params\<close>.  The pack is declared \<^verbatim>\<open>auto...\<close>: it takes integer
  constants of any type and any number.  When the class is instantiated the pack is handed
  to \<^verbatim>\<open>launch_params_t\<close>, which takes two or three arguments and converts each to
  \<^verbatim>\<open>unsigned int\<close>.  The function gives the members of the instantiated class, or the error
  of the instantiation.
\<close>

record sm_launch_params = launch_params +
  combined_ver :: "32 word"

definition sm_launch_params_t :: "32 word \<Rightarrow> int list \<Rightarrow> build_error + sm_launch_params" where
  "sm_launch_params_t combined_ver_v launch_params_args_v =
     (case launch_params_args_v of
        [b, g] \<Rightarrow>
          if is_unsigned_int b \<and> is_unsigned_int g
          then Inr (launch_params.extend
                 (launch_params_t (word_of_int b) (word_of_int g) None)
                 \<lparr> combined_ver = combined_ver_v \<rparr>)
          else Inl Narrowing_Conversion
      | [b, g, s] \<Rightarrow>
          if is_unsigned_int b \<and> is_unsigned_int g \<and> is_unsigned_int s
          then Inr (launch_params.extend
                 (launch_params_t (word_of_int b) (word_of_int g) (Some (word_of_int s)))
                 \<lparr> combined_ver = combined_ver_v \<rparr>)
          else Inl Narrowing_Conversion
      | _ \<Rightarrow> Inl Template_Arguments)"

definition fallback_launch_params_t :: "int list \<Rightarrow> build_error + sm_launch_params" where
  "fallback_launch_params_t launch_params_args_v = sm_launch_params_t 0 launch_params_args_v"

text \<open>
  A member of a launch box is written as a type: \<^verbatim>\<open>sm_t<combined_ver_, args...>\<close>, an alias of
  \<^verbatim>\<open>sm_launch_params_t\<close>, or \<^verbatim>\<open>fallback_t<args...>\<close>, an alias of the struct
  \<^verbatim>\<open>fallback_launch_params_t\<close>.  Naming a type does not instantiate its class.  The first
  parameter of \<^verbatim>\<open>sm_t\<close> is typed \<^verbatim>\<open>unsigned int\<close>, so its argument is converted where the type
  is named; the arguments of the \<^verbatim>\<open>auto...\<close> pack are kept as they are written.
\<close>

datatype sm_lp_t =
    Sm_launch_params "32 word" "int list"
  | Fallback_launch_params "int list"


definition fallback_t :: "int list \<Rightarrow> sm_lp_t" where
  "fallback_t launch_params_args_v = Fallback_launch_params launch_params_args_v"

text \<open>Reading a member of a named type (\<^verbatim>\<open>sm_lp_t::combined_ver\<close>) instantiates its class.\<close>

fun instantiate :: "sm_lp_t \<Rightarrow> build_error + sm_launch_params" where
  "instantiate (Sm_launch_params combined_ver_v launch_params_args_v) =
     sm_launch_params_t combined_ver_v launch_params_args_v"
| "instantiate (Fallback_launch_params launch_params_args_v) =
     fallback_launch_params_t launch_params_args_v"

text \<open>
  \<^verbatim>\<open>raise_not_found_error_t<T>\<close> holds a \<^verbatim>\<open>static_assert\<close> on \<^verbatim>\<open>always_false<T>::value\<close>,
  an enumerator that is \<^verbatim>\<open>false\<close> for every \<^verbatim>\<open>T\<close>: instantiating the struct stops the
  build with the message of the assertion, a string literal.
\<close>

definition raise_not_found_error_t :: build_error where
  "raise_not_found_error_t = Static_Assert ''launch_box_t could not find valid launch_params_t''"

text \<open>
  \<^verbatim>\<open>device_launch_params_t<sm_lp_v...>\<close> selects its base class by template recursion over the
  pack.  The embedding is a function from the pack to the selected record or the build
  error.

  \<^item> The primary template is declared and never defined: the empty pack is an incomplete type.
  \<^item> The specialization for one member selects it when its version is \<^verbatim>\<open>TEST_SM\<close> or 0, and
    \<^verbatim>\<open>raise_not_found_error_t<void>\<close> otherwise.
  \<^item> The specialization for a first member and a non-empty rest: a first member of version 0
    goes to the end of the pack; one of version \<^verbatim>\<open>TEST_SM\<close> is selected; any other is left out.

  A class is incomplete until its definition has been instantiated, and a base class has to
  be complete.  The second argument lists the specializations (their packs) whose
  instantiation is under way: deriving from one of them stops the build.  A member stands
  for its type by its four enumerators; the steps read nothing else of it, so a pack that
  comes back with the same enumerators repeats its steps until the same types come back.
  The version the build is made for is the first argument, \<^verbatim>\<open>TEST_SM\<close> in the source.
\<close>

function (sequential) device_launch_params_t ::
  "32 word \<Rightarrow> sm_launch_params list list \<Rightarrow> sm_launch_params list \<Rightarrow> build_error + sm_launch_params" where
  "device_launch_params_t active inst [] = Inl Incomplete_Type"
| "device_launch_params_t active inst [sm_lp] =
     (if combined_ver sm_lp = active \<or> combined_ver sm_lp = 0 then Inr sm_lp
      else Inl raise_not_found_error_t)"
| "device_launch_params_t active inst (sm_lp # sm_lp_v) =
     (if sm_lp # sm_lp_v \<in> set inst then Inl Incomplete_Type
      else if combined_ver sm_lp = 0
        then device_launch_params_t active ((sm_lp # sm_lp_v) # inst) (sm_lp_v @ [sm_lp])
      else if combined_ver sm_lp = active then Inr sm_lp
      else device_launch_params_t active ((sm_lp # sm_lp_v) # inst) sm_lp_v)"
  by pat_completeness auto

termination
proof (relation "measures [\<lambda>(active, inst, pack). length pack,
    \<lambda>(active, inst, pack). card ({q. set q \<subseteq> set pack \<and> length q = length pack} - set inst)]")
  show "wf (measures [\<lambda>(active, inst, pack). length pack,
    \<lambda>(active::32 word, inst, pack::sm_launch_params list).
       card ({q. set q \<subseteq> set pack \<and> length q = length pack} - set inst)])"
    by simp
next
  fix active :: "32 word" and inst :: "sm_launch_params list list"
    and sm_lp v :: sm_launch_params and va :: "sm_launch_params list"
  let ?p = "sm_lp # v # va"
  let ?S = "{q. set q \<subseteq> set ?p \<and> length q = length ?p}"
  assume fresh: "?p \<notin> set inst"
  have fin: "finite (?S - set inst)"
    using finite_lists_length_eq [of "set ?p" "length ?p"] by simp
  have mem: "?p \<in> ?S - set inst"
    using fresh by simp
  have same: "{q. set q \<subseteq> set ((v # va) @ [sm_lp]) \<and> length q = length ((v # va) @ [sm_lp])} = ?S"
    by auto
  have "?S - set (?p # inst) = (?S - set inst) - {?p}"
    by auto
  then have "card (?S - set (?p # inst)) < card (?S - set inst)"
    using card_Diff1_less [OF fin mem] by simp
  then show "((active, ?p # inst, (v # va) @ [sm_lp]), (active, inst, ?p))
      \<in> measures [\<lambda>(active, inst, pack). length pack,
          \<lambda>(active, inst, pack). card ({q. set q \<subseteq> set pack \<and> length q = length pack} - set inst)]"
    using same by simp
next
  fix active :: "32 word" and inst :: "sm_launch_params list list"
    and sm_lp v :: sm_launch_params and va :: "sm_launch_params list"
  show "((active, (sm_lp # v # va) # inst, v # va), (active, inst, sm_lp # v # va))
      \<in> measures [\<lambda>(active, inst, pack). length pack,
          \<lambda>(active, inst, pack). card ({q. set q \<subseteq> set pack \<and> length q = length pack} - set inst)]"
    by simp
qed

text \<open>
  \<^verbatim>\<open>launch_box_t<sm_lp_v...>\<close> derives from \<^verbatim>\<open>device_launch_params_t<sm_lp_v...>\<close>; nothing is
  being instantiated when a launch box is named.
\<close>

definition launch_box_t :: "sm_launch_params list \<Rightarrow> build_error + sm_launch_params" where
  "launch_box_t sm_lp_v = device_launch_params_t TEST_SM [] sm_lp_v"

text \<open>
  The same templates over a pack of named types.  \<^verbatim>\<open>device_launch_params_t\<close> reads
  \<^verbatim>\<open>combined_ver\<close> of the first member only, so the class of a member is instantiated when
  the member comes first, and not before: the error of that instantiation stops the build,
  and a member that never comes first is never instantiated.  The function above is this
  one on members whose classes instantiate.
\<close>

function (sequential) declared_device_launch_params_t ::
  "32 word \<Rightarrow> sm_lp_t list list \<Rightarrow> sm_lp_t list \<Rightarrow> build_error + sm_launch_params" where
  "declared_device_launch_params_t active inst [] = Inl Incomplete_Type"
| "declared_device_launch_params_t active inst [t] =
     (case instantiate t of
        Inl e \<Rightarrow> Inl e
      | Inr sm_lp \<Rightarrow>
          if combined_ver sm_lp = active \<or> combined_ver sm_lp = 0 then Inr sm_lp
          else Inl raise_not_found_error_t)"
| "declared_device_launch_params_t active inst (t # sm_lp_v) =
     (if t # sm_lp_v \<in> set inst then Inl Incomplete_Type
      else case instantiate t of
        Inl e \<Rightarrow> Inl e
      | Inr sm_lp \<Rightarrow>
          if combined_ver sm_lp = 0
            then declared_device_launch_params_t active ((t # sm_lp_v) # inst) (sm_lp_v @ [t])
          else if combined_ver sm_lp = active then Inr sm_lp
          else declared_device_launch_params_t active ((t # sm_lp_v) # inst) sm_lp_v)"
  by pat_completeness auto

termination
proof (relation "measures [\<lambda>(active, inst, pack). length pack,
    \<lambda>(active, inst, pack). card ({q. set q \<subseteq> set pack \<and> length q = length pack} - set inst)]")
  show "wf (measures [\<lambda>(active, inst, pack). length pack,
    \<lambda>(active::32 word, inst, pack::sm_lp_t list).
       card ({q. set q \<subseteq> set pack \<and> length q = length pack} - set inst)])"
    by simp
next
  fix active :: "32 word" and inst :: "sm_lp_t list list"
    and t v :: sm_lp_t and va :: "sm_lp_t list"
  let ?p = "t # v # va"
  let ?S = "{q. set q \<subseteq> set ?p \<and> length q = length ?p}"
  assume fresh: "?p \<notin> set inst"
  have fin: "finite (?S - set inst)"
    using finite_lists_length_eq [of "set ?p" "length ?p"] by simp
  have mem: "?p \<in> ?S - set inst"
    using fresh by simp
  have same: "{q. set q \<subseteq> set ((v # va) @ [t]) \<and> length q = length ((v # va) @ [t])} = ?S"
    by auto
  have "?S - set (?p # inst) = (?S - set inst) - {?p}"
    by auto
  then have "card (?S - set (?p # inst)) < card (?S - set inst)"
    using card_Diff1_less [OF fin mem] by simp
  then show "((active, ?p # inst, (v # va) @ [t]), (active, inst, ?p))
      \<in> measures [\<lambda>(active, inst, pack). length pack,
          \<lambda>(active, inst, pack). card ({q. set q \<subseteq> set pack \<and> length q = length pack} - set inst)]"
    using same by simp
next
  fix active :: "32 word" and inst :: "sm_lp_t list list"
    and t v :: sm_lp_t and va :: "sm_lp_t list"
  show "((active, (t # v # va) # inst, v # va), (active, inst, t # v # va))
      \<in> measures [\<lambda>(active, inst, pack). length pack,
          \<lambda>(active, inst, pack). card ({q. set q \<subseteq> set pack \<and> length q = length pack} - set inst)]"
    by simp
qed

definition declared_launch_box_t :: "sm_lp_t list \<Rightarrow> build_error + sm_launch_params" where
  "declared_launch_box_t sm_lp_v = declared_device_launch_params_t TEST_SM [] sm_lp_v"

section \<open>Graph base class (gunrock/graph/detail/graph\_base.hxx)\<close>

text \<open>
  \<^verbatim>\<open>graph_properties_t\<close> is declared in \<^verbatim>\<open>gunrock/graph/properties.hxx\<close>; the class reads its
  member \<^verbatim>\<open>directed\<close> only.
\<close>

record graph_properties_t =
  directed :: bool

text \<open>
  \<^verbatim>\<open>graph_base_t<vertex_t, edge_t, weight_t>\<close> has three protected members.  The first two
  constructors value-initialise \<^verbatim>\<open>_properties\<close>; that value comes from the declaration of
  \<^verbatim>\<open>graph_properties_t\<close> and is a parameter here.
\<close>

record ('v, 'e) graph_base =
  member_number_of_vertices :: 'v
  member_number_of_edges :: 'e
  member_properties :: graph_properties_t

definition graph_base_t0 :: "graph_properties_t \<Rightarrow> ('v::zero, 'e::zero) graph_base" where
  "graph_base_t0 default_properties =
     \<lparr> member_number_of_vertices = 0,
       member_number_of_edges = 0,
       member_properties = default_properties \<rparr>"

definition graph_base_t2 :: "graph_properties_t \<Rightarrow> 'v \<Rightarrow> 'e \<Rightarrow> ('v, 'e) graph_base" where
  "graph_base_t2 default_properties number_of_vertices number_of_edges =
     \<lparr> member_number_of_vertices = number_of_vertices,
       member_number_of_edges = number_of_edges,
       member_properties = default_properties \<rparr>"

definition graph_base_t3 :: "'v \<Rightarrow> 'e \<Rightarrow> graph_properties_t \<Rightarrow> ('v, 'e) graph_base" where
  "graph_base_t3 number_of_vertices number_of_edges properties =
     \<lparr> member_number_of_vertices = number_of_vertices,
       member_number_of_edges = number_of_edges,
       member_properties = properties \<rparr>"

definition get_number_of_vertices :: "('v, 'e) graph_base \<Rightarrow> 'v" where
  "get_number_of_vertices g = member_number_of_vertices g"

definition get_number_of_edges :: "('v, 'e) graph_base \<Rightarrow> 'e" where
  "get_number_of_edges g = member_number_of_edges g"

definition is_directed :: "('v, 'e) graph_base \<Rightarrow> bool" where
  "is_directed g = directed (member_properties g)"

section \<open>Properties of the selection\<close>

subsection \<open>Lists\<close>

lemma find_first:
  "\<forall>r\<in>set pre. \<not> P r \<Longrightarrow> P m \<Longrightarrow> List.find P (pre @ m # post) = Some m"
  by (induction pre) auto

lemma find_snoc:
  "List.find P xs = Some m \<Longrightarrow> List.find P (xs @ [y]) = Some m"
  by (induction xs) auto

lemma find_Some_ex:
  "List.find P xs = Some m \<Longrightarrow> \<exists>r\<in>set xs. P r"
  by (induction xs) (auto split: if_splits)

lemma takeWhile_snoc:
  "\<exists>r\<in>set xs. \<not> P r \<Longrightarrow> takeWhile P (xs @ [y]) = takeWhile P xs"
  by (induction xs) auto

subsection \<open>The recursion, for any instantiation under way\<close>

text \<open>
  The first member of the active version is reached before any pack comes back: the number
  of members in front of it falls with every step.
\<close>

lemma first_match_gen:
  shows "active \<noteq> 0 \<Longrightarrow> List.find (\<lambda>r. combined_ver r = active) pack = Some m \<Longrightarrow>
    \<forall>q\<in>set inst. length (takeWhile (\<lambda>r. combined_ver r \<noteq> active) pack)
                < length (takeWhile (\<lambda>r. combined_ver r \<noteq> active) q) \<Longrightarrow>
    device_launch_params_t active inst pack = Inr m"
proof (induction active inst pack rule: device_launch_params_t.induct)
  case (1 active inst)
  then show ?case by simp
next
  case (2 active inst sm_lp)
  then show ?case by (simp split: if_splits)
next
  case (3 active inst sm_lp v va)
  let ?p = "sm_lp # v # va"
  let ?P = "\<lambda>r. combined_ver r \<noteq> active"
  have fresh: "?p \<notin> set inst"
    using "3.prems"(3) by blast
  show ?case
  proof (cases "combined_ver sm_lp = active")
    case True
    then have "sm_lp = m" "combined_ver sm_lp \<noteq> 0"
      using "3.prems"(1,2) by auto
    then show ?thesis using fresh True
      by simp
  next
    case False
    then have f: "List.find (\<lambda>r. combined_ver r = active) (v # va) = Some m"
      using "3.prems"(2) by simp
    then have ex: "\<exists>r\<in>set (v # va). \<not> ?P r"
      using find_Some_ex [OF f] by simp
    have tw: "length (takeWhile ?P ?p) = Suc (length (takeWhile ?P (v # va)))"
      using False by simp
    show ?thesis
    proof (cases "combined_ver sm_lp = 0")
      case True
      have f': "List.find (\<lambda>r. combined_ver r = active) ((v # va) @ [sm_lp]) = Some m"
        using find_snoc [OF f] .
      have tw': "takeWhile ?P ((v # va) @ [sm_lp]) = takeWhile ?P (v # va)"
        using takeWhile_snoc [OF ex] .
      have inv: "\<forall>q\<in>set (?p # inst). length (takeWhile ?P ((v # va) @ [sm_lp])) < length (takeWhile ?P q)"
      proof
        fix q assume "q \<in> set (?p # inst)"
        then consider "q = ?p" | "q \<in> set inst" by auto
        then show "length (takeWhile ?P ((v # va) @ [sm_lp])) < length (takeWhile ?P q)"
        proof cases
          case 1 then show ?thesis using tw tw' by simp
        next
          case 2 then show ?thesis using "3.prems"(3) tw tw' by fastforce
        qed
      qed
      show ?thesis
        using "3.IH"(1) [OF fresh True "3.prems"(1) f' inv] fresh True by simp
    next
      case nf: False
      have inv: "\<forall>q\<in>set (?p # inst). length (takeWhile ?P (v # va)) < length (takeWhile ?P q)"
      proof
        fix q assume "q \<in> set (?p # inst)"
        then consider "q = ?p" | "q \<in> set inst" by auto
        then show "length (takeWhile ?P (v # va)) < length (takeWhile ?P q)"
        proof cases
          case 1 then show ?thesis using tw by simp
        next
          case 2 then show ?thesis using "3.prems"(3) tw by fastforce
        qed
      qed
      show ?thesis
        using "3.IH"(2) [OF fresh nf False "3.prems"(1) f inv] fresh nf False by simp
    qed
  qed
qed

lemma not_found_gen:
  "pack \<noteq> [] \<Longrightarrow> \<forall>r\<in>set pack. combined_ver r \<noteq> active \<and> combined_ver r \<noteq> 0 \<Longrightarrow>
   \<forall>q\<in>set inst. length pack < length q \<Longrightarrow>
   device_launch_params_t active inst pack = Inl raise_not_found_error_t"
proof (induction active inst pack rule: device_launch_params_t.induct)
  case (1 active inst)
  then show ?case by simp
next
  case (2 active inst sm_lp)
  then show ?case by simp
next
  case (3 active inst sm_lp v va)
  let ?p = "sm_lp # v # va"
  have fresh: "?p \<notin> set inst"
    using "3.prems"(3) by blast
  have nz: "combined_ver sm_lp \<noteq> 0" and na: "combined_ver sm_lp \<noteq> active"
    using "3.prems"(2) by simp_all
  have rest: "\<forall>r\<in>set (v # va). combined_ver r \<noteq> active \<and> combined_ver r \<noteq> 0"
    using "3.prems"(2) by simp
  have inv: "\<forall>q\<in>set (?p # inst). length (v # va) < length q"
    using "3.prems"(3) by fastforce
  have "device_launch_params_t active (?p # inst) (v # va) = Inl raise_not_found_error_t"
    using "3.IH"(2) [OF fresh nz na _ rest inv] by simp
  then show ?case
    using fresh nz na by simp
qed

text \<open>The fallback is last and every member in front of it is left out.\<close>

lemma fallback_last_gen:
  "\<forall>r\<in>set ys. combined_ver r \<noteq> active \<and> combined_ver r \<noteq> 0 \<Longrightarrow>
   combined_ver f = 0 \<Longrightarrow>
   \<forall>q\<in>set inst. length (ys @ [f]) \<le> length q \<and> q \<noteq> ys @ [f] \<Longrightarrow>
   device_launch_params_t active inst (ys @ [f]) = Inr f"
proof (induction ys arbitrary: inst)
  case Nil
  then show ?case by simp
next
  case (Cons y ys)
  obtain z zs where zs: "ys @ [f] = z # zs"
    by (cases "ys @ [f]") auto
  let ?p = "y # ys @ [f]"
  have fresh: "?p \<notin> set inst"
    using Cons.prems(3) by auto
  have nz: "combined_ver y \<noteq> 0" and na: "combined_ver y \<noteq> active"
    using Cons.prems(1) by simp_all
  have inv: "\<forall>q\<in>set (?p # inst). length (ys @ [f]) \<le> length q \<and> q \<noteq> ys @ [f]"
    using Cons.prems(3) by fastforce
  have "device_launch_params_t active (?p # inst) (ys @ [f]) = Inr f"
    using Cons.IH [OF _ Cons.prems(2) inv] Cons.prems(1) by simp
  then show ?case
    using fresh nz na zs by simp
qed

lemma fallback_gen:
  "\<forall>r\<in>set xs. combined_ver r \<noteq> active \<and> combined_ver r \<noteq> 0 \<Longrightarrow>
   \<forall>r\<in>set ys. combined_ver r \<noteq> active \<and> combined_ver r \<noteq> 0 \<Longrightarrow>
   combined_ver f = 0 \<Longrightarrow>
   \<forall>q\<in>set inst. length (xs @ f # ys) < length q \<Longrightarrow>
   device_launch_params_t active inst (xs @ f # ys) = Inr f"
proof (induction xs arbitrary: inst)
  case Nil
  show ?case
  proof (cases ys)
    case Nil
    then show ?thesis using Nil.prems(3) by simp
  next
    case (Cons z zs)
    let ?p = "f # z # zs"
    have fresh: "?p \<notin> set inst"
      using Nil.prems(4) Cons by auto
    have "combined_ver z \<noteq> 0"
      using Nil.prems(2) Cons by simp
    then have ne: "?p \<noteq> (z # zs) @ [f]"
      using Nil.prems(3) by auto
    have inv: "\<forall>q\<in>set (?p # inst). length ((z # zs) @ [f]) \<le> length q \<and> q \<noteq> (z # zs) @ [f]"
    proof
      fix q assume "q \<in> set (?p # inst)"
      then consider "q = ?p" | "q \<in> set inst" by auto
      then show "length ((z # zs) @ [f]) \<le> length q \<and> q \<noteq> (z # zs) @ [f]"
      proof cases
        case 1 then show ?thesis using ne by simp
      next
        case 2 then show ?thesis using Nil.prems(4) Cons by fastforce
      qed
    qed
    have "device_launch_params_t active (?p # inst) ((z # zs) @ [f]) = Inr f"
      using fallback_last_gen [OF _ Nil.prems(3) inv] Nil.prems(2) Cons by simp
    then show ?thesis
      using fresh Nil.prems(3) Cons by simp
  qed
next
  case (Cons x xs)
  obtain z zs where zs: "xs @ f # ys = z # zs"
    by (cases "xs @ f # ys") auto
  let ?p = "x # xs @ f # ys"
  have fresh: "?p \<notin> set inst"
    using Cons.prems(4) by auto
  have nz: "combined_ver x \<noteq> 0" and na: "combined_ver x \<noteq> active"
    using Cons.prems(1) by simp_all
  have inv: "\<forall>q\<in>set (?p # inst). length (xs @ f # ys) < length q"
    using Cons.prems(4) by fastforce
  have "device_launch_params_t active (?p # inst) (xs @ f # ys) = Inr f"
    using Cons.IH [OF _ Cons.prems(2) Cons.prems(3) inv] Cons.prems(1) by simp
  then show ?case
    using fresh nz na zs by simp
qed

lemma cyclic_gen:
  "\<forall>r\<in>set pack. combined_ver r \<noteq> active \<Longrightarrow>
   2 \<le> length (filter (\<lambda>r. combined_ver r = 0) pack) \<Longrightarrow>
   device_launch_params_t active inst pack = Inl Incomplete_Type"
proof (induction active inst pack rule: device_launch_params_t.induct)
  case (1 active inst)
  then show ?case by simp
next
  case (2 active inst sm_lp)
  then show ?case by (simp split: if_splits)
next
  case (3 active inst sm_lp v va)
  let ?p = "sm_lp # v # va"
  show ?case
  proof (cases "?p \<in> set inst")
    case True
    then show ?thesis by simp
  next
    case fresh: False
    have na: "combined_ver sm_lp \<noteq> active"
      using "3.prems"(1) by simp
    show ?thesis
    proof (cases "combined_ver sm_lp = 0")
      case True
      have a: "\<forall>r\<in>set ((v # va) @ [sm_lp]). combined_ver r \<noteq> active"
        using "3.prems"(1) by auto
      have b: "2 \<le> length (filter (\<lambda>r. combined_ver r = 0) ((v # va) @ [sm_lp]))"
        using "3.prems"(2) True by (auto split: if_splits)
      show ?thesis
        using "3.IH"(1) [OF fresh True a b] fresh True by simp
    next
      case nz: False
      have a: "\<forall>r\<in>set (v # va). combined_ver r \<noteq> active"
        using "3.prems"(1) by simp
      have b: "2 \<le> length (filter (\<lambda>r. combined_ver r = 0) (v # va))"
        using "3.prems"(2) nz by (auto split: if_splits)
      show ?thesis
        using "3.IH"(2) [OF fresh nz na a b] fresh nz na by simp
    qed
  qed
qed

lemma selected_member:
  "device_launch_params_t active inst pack = Inr r \<Longrightarrow>
   r \<in> set pack \<and> (combined_ver r = active \<or> combined_ver r = 0)"
proof (induction active inst pack rule: device_launch_params_t.induct)
  case (1 active inst)
  then show ?case by simp
next
  case (2 active inst sm_lp)
  then show ?case by (simp split: if_splits)
next
  case (3 active inst sm_lp v va)
  let ?p = "sm_lp # v # va"
  have fresh: "?p \<notin> set inst"
    using "3.prems" by (auto split: if_splits)
  show ?case
  proof (cases "combined_ver sm_lp = 0")
    case True
    then have "device_launch_params_t active (?p # inst) ((v # va) @ [sm_lp]) = Inr r"
      using "3.prems" fresh by simp
    then show ?thesis
      using "3.IH"(1) [OF fresh True] by auto
  next
    case nz: False
    show ?thesis
    proof (cases "combined_ver sm_lp = active")
      case True
      then show ?thesis using "3.prems" fresh nz by simp
    next
      case na: False
      then have "device_launch_params_t active (?p # inst) (v # va) = Inr r"
        using "3.prems" fresh nz by simp
      then show ?thesis
        using "3.IH"(2) [OF fresh nz na] by auto
    qed
  qed
qed

lemma failure_kind:
  "device_launch_params_t active inst pack = Inl e \<Longrightarrow>
   e = Incomplete_Type \<or> e = raise_not_found_error_t"
proof (induction active inst pack rule: device_launch_params_t.induct)
  case (1 active inst)
  then show ?case by simp
next
  case (2 active inst sm_lp)
  then show ?case by (simp split: if_splits)
next
  case (3 active inst sm_lp v va)
  then show ?case by (simp split: if_splits)
qed

subsection \<open>The recursion over named types\<close>



text \<open>
  On a pack whose classes all instantiate, the recursion over named types gives what the
  recursion over their members gives, whenever that is a member or the static assertion.
\<close>

lemma declared_agrees:
  "\<forall>t\<in>set pack. instantiate t = Inr (members t) \<Longrightarrow>
   device_launch_params_t active (map (map members) inst) (map members pack) \<noteq> Inl Incomplete_Type \<Longrightarrow>
   declared_device_launch_params_t active inst pack
     = device_launch_params_t active (map (map members) inst) (map members pack)"
proof (induction active inst pack rule: declared_device_launch_params_t.induct)
  case (1 active inst)
  then show ?case by simp
next
  case (2 active inst t)
  then show ?case by simp
next
  case (3 active inst t v va)
  let ?p = "t # v # va"
  let ?m = "map members"
  have t: "instantiate t = Inr (members t)"
    using "3.prems"(1) by simp
  have fresh': "?m ?p \<notin> set (map ?m inst)"
    using "3.prems"(2) by (auto split: if_splits)
  then have fresh: "?p \<notin> set inst"
    by force
  have fresh'': "members t # members v # ?m va \<notin> ?m ` set inst"
    using fresh' by simp
  show ?case
  proof (cases "combined_ver (members t) = 0")
    case True
    have a: "\<forall>u\<in>set ((v # va) @ [t]). instantiate u = Inr (members u)"
      using "3.prems"(1) by auto
    have eq: "device_launch_params_t active (?m ?p # map ?m inst) (?m ((v # va) @ [t]))
        = device_launch_params_t active (map ?m inst) (?m ?p)"
      using fresh'' True by simp
    have b: "device_launch_params_t active (map ?m (?p # inst)) (?m ((v # va) @ [t])) \<noteq> Inl Incomplete_Type"
      using "3.prems"(2) eq by simp
    have "declared_device_launch_params_t active (?p # inst) ((v # va) @ [t])
        = device_launch_params_t active (map ?m (?p # inst)) (?m ((v # va) @ [t]))"
      using "3.IH"(1) [OF fresh t True a b] .
    then show ?thesis
      using fresh fresh'' t True by simp
  next
    case nz: False
    show ?thesis
    proof (cases "combined_ver (members t) = active")
      case True
      then show ?thesis using fresh fresh'' t nz by simp
    next
      case na: False
      have a: "\<forall>u\<in>set (v # va). instantiate u = Inr (members u)"
        using "3.prems"(1) by auto
      have eq: "device_launch_params_t active (?m ?p # map ?m inst) (?m (v # va))
          = device_launch_params_t active (map ?m inst) (?m ?p)"
        using fresh'' nz na by simp
      have b: "device_launch_params_t active (map ?m (?p # inst)) (?m (v # va)) \<noteq> Inl Incomplete_Type"
        using "3.prems"(2) eq by simp
      have "declared_device_launch_params_t active (?p # inst) (v # va)
          = device_launch_params_t active (map ?m (?p # inst)) (?m (v # va))"
        using "3.IH"(2) [OF fresh t nz na a b] .
      then show ?thesis
        using fresh fresh'' t nz na by simp
    qed
  qed
qed


subsection \<open>What a launch box selects\<close>

text \<open>
  C1.  When the pack has a member of the active version, the launch box selects the first
  such member in the order of declaration, whatever the other members are: members of
  other versions, fallback members, and later members of the active version.  The active
  version is not 0, which marks a fallback.
\<close>

theorem resolve_first_exact_match:
  assumes "active \<noteq> 0"
    and "\<forall>r\<in>set pre. combined_ver r \<noteq> active"
    and "combined_ver m = active"
  shows "device_launch_params_t active [] (pre @ m # post) = Inr m"
proof -
  have "List.find (\<lambda>r. combined_ver r = active) (pre @ m # post) = Some m"
    using assms(2,3) by (intro find_first) simp_all
  then show ?thesis
    using first_match_gen [OF assms(1), of "pre @ m # post" m "[]"] by simp
qed

theorem resolve_first_exact_match_witness:
  "launch_box_t
     [\<lparr>block_dimensions = 256, grid_dimensions = 32, shared_memory_bytes = 0, combined_ver = 0\<rparr>,
      \<lparr>block_dimensions = 128, grid_dimensions = 64, shared_memory_bytes = 0, combined_ver = 61\<rparr>,
      \<lparr>block_dimensions = 512, grid_dimensions = 16, shared_memory_bytes = 48, combined_ver = 75\<rparr>,
      \<lparr>block_dimensions = 64, grid_dimensions = 8, shared_memory_bytes = 0, combined_ver = 75\<rparr>,
      \<lparr>block_dimensions = 32, grid_dimensions = 4, shared_memory_bytes = 0, combined_ver = 0\<rparr>]
   = Inr \<lparr>block_dimensions = 512, grid_dimensions = 16, shared_memory_bytes = 48, combined_ver = 75\<rparr>"
  using resolve_first_exact_match [of 75
     "[\<lparr>block_dimensions = 256, grid_dimensions = 32, shared_memory_bytes = 0, combined_ver = 0\<rparr>,
       \<lparr>block_dimensions = 128, grid_dimensions = 64, shared_memory_bytes = 0, combined_ver = 61\<rparr>]"
     "\<lparr>block_dimensions = 512, grid_dimensions = 16, shared_memory_bytes = 48, combined_ver = 75\<rparr>"
     "[\<lparr>block_dimensions = 64, grid_dimensions = 8, shared_memory_bytes = 0, combined_ver = 75\<rparr>,
       \<lparr>block_dimensions = 32, grid_dimensions = 4, shared_memory_bytes = 0, combined_ver = 0\<rparr>]"]
  by (simp add: launch_box_t_def TEST_SM_def)

text \<open>
  C2.  When the pack has both a fallback member and a member of the active version, the
  member selected is one of the active version and not the fallback, wherever the fallback
  is declared.
\<close>

theorem resolve_exact_match_over_fallback:
  assumes "active \<noteq> 0"
    and "f \<in> set pack" and "combined_ver f = 0"
    and "e \<in> set pack" and "combined_ver e = active"
  shows "\<exists>m\<in>set pack. device_launch_params_t active [] pack = Inr m
           \<and> combined_ver m = active \<and> m \<noteq> f"
proof -
  obtain m where m: "List.find (\<lambda>r. combined_ver r = active) pack = Some m"
    using assms(4,5) by (cases "List.find (\<lambda>r. combined_ver r = active) pack")
      (auto simp: find_None_iff)
  then have ver: "combined_ver m = active" and mem: "m \<in> set pack"
    by (auto simp: find_Some_iff)
  have "device_launch_params_t active [] pack = Inr m"
    using first_match_gen [OF assms(1) m, of "[]"] by simp
  moreover have "m \<noteq> f"
    using ver assms(1,3) by auto
  ultimately show ?thesis
    using ver mem by blast
qed

theorem resolve_exact_match_over_fallback_witness:
  "launch_box_t
     [\<lparr>block_dimensions = 256, grid_dimensions = 32, shared_memory_bytes = 0, combined_ver = 0\<rparr>,
      \<lparr>block_dimensions = 128, grid_dimensions = 64, shared_memory_bytes = 0, combined_ver = 75\<rparr>]
   = Inr \<lparr>block_dimensions = 128, grid_dimensions = 64, shared_memory_bytes = 0, combined_ver = 75\<rparr>"
  using resolve_exact_match_over_fallback [of 75
     "\<lparr>block_dimensions = 256, grid_dimensions = 32, shared_memory_bytes = 0, combined_ver = 0\<rparr>"
     "[\<lparr>block_dimensions = 256, grid_dimensions = 32, shared_memory_bytes = 0, combined_ver = 0\<rparr>,
       \<lparr>block_dimensions = 128, grid_dimensions = 64, shared_memory_bytes = 0, combined_ver = 75\<rparr>]"
     "\<lparr>block_dimensions = 128, grid_dimensions = 64, shared_memory_bytes = 0, combined_ver = 75\<rparr>"]
  by (auto simp add: launch_box_t_def TEST_SM_def)

text \<open>
  C3.  When no member has the active version and exactly one member is a fallback, that
  fallback is selected.  A pack of one fallback member selects it for every active version.
\<close>

theorem resolve_single_fallback:
  "((\<forall>r\<in>set pack. combined_ver r \<noteq> active)
      \<and> filter (\<lambda>r. combined_ver r = 0) pack = [f]
    \<longrightarrow> device_launch_params_t active [] pack = Inr f)
   \<and> (combined_ver g = 0 \<longrightarrow> device_launch_params_t target [] [g] = Inr g)"
proof (intro conjI impI)
  assume h: "(\<forall>r\<in>set pack. combined_ver r \<noteq> active)
      \<and> filter (\<lambda>r. combined_ver r = 0) pack = [f]"
  then obtain xs ys where pack: "pack = xs @ f # ys"
    and xs: "\<forall>r\<in>set xs. combined_ver r \<noteq> 0"
    and f: "combined_ver f = 0"
    and ys: "filter (\<lambda>r. combined_ver r = 0) ys = []"
    by (auto simp: filter_eq_Cons_iff)
  have ys': "\<forall>r\<in>set ys. combined_ver r \<noteq> 0"
    using ys by (simp add: filter_empty_conv)
  have a: "\<forall>r\<in>set xs. combined_ver r \<noteq> active \<and> combined_ver r \<noteq> 0"
    using h xs pack by simp
  have b: "\<forall>r\<in>set ys. combined_ver r \<noteq> active \<and> combined_ver r \<noteq> 0"
    using h ys' pack by simp
  show "device_launch_params_t active [] pack = Inr f"
    unfolding pack using fallback_gen [OF a b f, of "[]"] by simp
next
  assume "combined_ver g = 0"
  then show "device_launch_params_t target [] [g] = Inr g"
    by simp
qed

theorem resolve_single_fallback_witness:
  "launch_box_t
     [\<lparr>block_dimensions = 128, grid_dimensions = 64, shared_memory_bytes = 0, combined_ver = 61\<rparr>,
      \<lparr>block_dimensions = 256, grid_dimensions = 32, shared_memory_bytes = 0, combined_ver = 0\<rparr>,
      \<lparr>block_dimensions = 64, grid_dimensions = 8, shared_memory_bytes = 0, combined_ver = 80\<rparr>]
   = Inr \<lparr>block_dimensions = 256, grid_dimensions = 32, shared_memory_bytes = 0, combined_ver = 0\<rparr>
   \<and> device_launch_params_t 86 []
     [\<lparr>block_dimensions = 256, grid_dimensions = 32, shared_memory_bytes = 0, combined_ver = 0\<rparr>]
   = Inr \<lparr>block_dimensions = 256, grid_dimensions = 32, shared_memory_bytes = 0, combined_ver = 0\<rparr>"
  using resolve_single_fallback [of
     "[\<lparr>block_dimensions = 128, grid_dimensions = 64, shared_memory_bytes = 0, combined_ver = 61\<rparr>,
       \<lparr>block_dimensions = 256, grid_dimensions = 32, shared_memory_bytes = 0, combined_ver = 0\<rparr>,
       \<lparr>block_dimensions = 64, grid_dimensions = 8, shared_memory_bytes = 0, combined_ver = 80\<rparr>]"
     75
     "\<lparr>block_dimensions = 256, grid_dimensions = 32, shared_memory_bytes = 0, combined_ver = 0\<rparr>"
     "\<lparr>block_dimensions = 256, grid_dimensions = 32, shared_memory_bytes = 0, combined_ver = 0\<rparr>"
     86]
  by (simp add: launch_box_t_def TEST_SM_def)

text \<open>
  C4, as the code has it.  A non-empty pack with no member of the active version and no
  fallback stops the build at the static assertion of \<^verbatim>\<open>raise_not_found_error_t\<close>.  Its
  message is one string literal, the same for every pack and every active version.
\<close>

theorem resolve_not_found:
  assumes "pack \<noteq> []"
    and "\<forall>r\<in>set pack. combined_ver r \<noteq> active \<and> combined_ver r \<noteq> 0"
  shows "device_launch_params_t active [] pack
    = Inl (Static_Assert ''launch_box_t could not find valid launch_params_t'')"
  using not_found_gen [OF assms, of "[]"] by (simp add: raise_not_found_error_t_def)

theorem resolve_not_found_witness:
  "launch_box_t
     [\<lparr>block_dimensions = 128, grid_dimensions = 64, shared_memory_bytes = 0, combined_ver = 61\<rparr>]
   = Inl (Static_Assert ''launch_box_t could not find valid launch_params_t'')"
  using resolve_not_found [of
     "[\<lparr>block_dimensions = 128, grid_dimensions = 64, shared_memory_bytes = 0, combined_ver = 61\<rparr>]"
     75]
  by (simp add: launch_box_t_def TEST_SM_def)

text \<open>
  C4, as stated, asks for a diagnostic that names the kernel and the active version.  For
  version 75 and a pack of one member of version 61 the message has no digit 7 in it, and a
  different pack under version 80 gives the very same failure.
\<close>

theorem not_found_diagnostic_counterexample:
  "launch_box_t
     [\<lparr>block_dimensions = 128, grid_dimensions = 64, shared_memory_bytes = 0, combined_ver = 61\<rparr>]
   = Inl (Static_Assert ''launch_box_t could not find valid launch_params_t'')
   \<and> CHR ''7'' \<notin> set ''launch_box_t could not find valid launch_params_t''
   \<and> device_launch_params_t 80 []
     [\<lparr>block_dimensions = 32, grid_dimensions = 4, shared_memory_bytes = 16, combined_ver = 52\<rparr>,
      \<lparr>block_dimensions = 64, grid_dimensions = 8, shared_memory_bytes = 0, combined_ver = 70\<rparr>]
   = launch_box_t
     [\<lparr>block_dimensions = 128, grid_dimensions = 64, shared_memory_bytes = 0, combined_ver = 61\<rparr>]"
  by (simp add: launch_box_t_def TEST_SM_def raise_not_found_error_t_def)

text \<open>
  C5.  The recursion is total (its termination is proved with the definition): every pack
  ends in a member of the pack or in one of two build errors.  A pack with two or more
  fallback members and no member of the active version comes back to a specialization whose
  instantiation is under way, and ends in the build error of an incomplete type.
\<close>

theorem resolution_terminates:
  "((\<exists>r\<in>set pack. device_launch_params_t active [] pack = Inr r)
      \<or> device_launch_params_t active [] pack = Inl Incomplete_Type
      \<or> device_launch_params_t active [] pack = Inl raise_not_found_error_t)
   \<and> ((\<forall>r\<in>set pack. combined_ver r \<noteq> active)
        \<and> 2 \<le> length (filter (\<lambda>r. combined_ver r = 0) pack)
      \<longrightarrow> device_launch_params_t active [] pack = Inl Incomplete_Type)"
proof (intro conjI impI)
  show "(\<exists>r\<in>set pack. device_launch_params_t active [] pack = Inr r)
      \<or> device_launch_params_t active [] pack = Inl Incomplete_Type
      \<or> device_launch_params_t active [] pack = Inl raise_not_found_error_t"
  proof (cases "device_launch_params_t active [] pack")
    case (Inl e)
    then show ?thesis using failure_kind [OF Inl] by auto
  next
    case (Inr r)
    then show ?thesis using selected_member [OF Inr] by auto
  qed
next
  assume "(\<forall>r\<in>set pack. combined_ver r \<noteq> active)
        \<and> 2 \<le> length (filter (\<lambda>r. combined_ver r = 0) pack)"
  then show "device_launch_params_t active [] pack = Inl Incomplete_Type"
    using cyclic_gen [of pack active "[]"] by simp
qed

theorem resolution_terminates_witness:
  "launch_box_t
     [\<lparr>block_dimensions = 256, grid_dimensions = 32, shared_memory_bytes = 0, combined_ver = 0\<rparr>,
      \<lparr>block_dimensions = 128, grid_dimensions = 64, shared_memory_bytes = 0, combined_ver = 61\<rparr>,
      \<lparr>block_dimensions = 32, grid_dimensions = 4, shared_memory_bytes = 0, combined_ver = 0\<rparr>]
   = Inl Incomplete_Type"
  using resolution_terminates [of
     "[\<lparr>block_dimensions = 256, grid_dimensions = 32, shared_memory_bytes = 0, combined_ver = 0\<rparr>,
       \<lparr>block_dimensions = 128, grid_dimensions = 64, shared_memory_bytes = 0, combined_ver = 61\<rparr>,
       \<lparr>block_dimensions = 32, grid_dimensions = 4, shared_memory_bytes = 0, combined_ver = 0\<rparr>]"
     75]
  by (simp add: launch_box_t_def TEST_SM_def)

text \<open>
  C6, as the code has it.  The empty pack names the primary template, which is declared and
  never defined: the build stops on an incomplete type and no member is selected, for every
  active version.  The static assertion of \<^verbatim>\<open>raise_not_found_error_t\<close> is not reached.
\<close>

theorem resolve_empty:
  "device_launch_params_t active inst [] = Inl Incomplete_Type
   \<and> device_launch_params_t active inst [] \<noteq> Inl raise_not_found_error_t
   \<and> launch_box_t [] = Inl Incomplete_Type
   \<and> (\<nexists>r. device_launch_params_t active inst [] = Inr r)"
  by (simp add: launch_box_t_def raise_not_found_error_t_def)

text \<open>
  C6, as stated, has the empty pack fail with the failure of a pack in which nothing
  matches.  The empty launch box stops on the incomplete type, which is not that failure.
\<close>

theorem empty_pack_counterexample:
  "launch_box_t [] = Inl Incomplete_Type
   \<and> launch_box_t [] \<noteq> Inl raise_not_found_error_t
   \<and> declared_launch_box_t [] \<noteq> Inl raise_not_found_error_t"
  by (simp add: launch_box_t_def declared_launch_box_t_def raise_not_found_error_t_def)

text \<open>
  C7.  The selection depends on the active version and the pack only: equal inputs give the
  equal member or the equal failure.  A selected member is one of the declared members, as
  declared.
\<close>

theorem resolve_deterministic:
  "(active' = active \<and> pack' = pack
      \<longrightarrow> device_launch_params_t active' [] pack' = device_launch_params_t active [] pack)
   \<and> (device_launch_params_t active [] pack = Inr r \<longrightarrow> r \<in> set pack)"
  using selected_member [of active "[]" pack r] by simp

theorem resolve_deterministic_witness:
  "launch_box_t
     [\<lparr>block_dimensions = 128, grid_dimensions = 64, shared_memory_bytes = 0, combined_ver = 75\<rparr>,
      \<lparr>block_dimensions = 256, grid_dimensions = 32, shared_memory_bytes = 0, combined_ver = 0\<rparr>]
   = Inr \<lparr>block_dimensions = 128, grid_dimensions = 64, shared_memory_bytes = 0, combined_ver = 75\<rparr>
   \<and> \<lparr>block_dimensions = 128, grid_dimensions = 64, shared_memory_bytes = 0, combined_ver = 75\<rparr>
     \<in> set [\<lparr>block_dimensions = 128, grid_dimensions = 64, shared_memory_bytes = 0, combined_ver = 75\<rparr>,
      \<lparr>block_dimensions = 256, grid_dimensions = 32, shared_memory_bytes = 0, combined_ver = 0\<rparr>]"
  using resolve_deterministic [of 75 75
     "[\<lparr>block_dimensions = 128, grid_dimensions = 64, shared_memory_bytes = 0, combined_ver = 75\<rparr>,
       \<lparr>block_dimensions = 256, grid_dimensions = 32, shared_memory_bytes = 0, combined_ver = 0\<rparr>]"
     "[\<lparr>block_dimensions = 128, grid_dimensions = 64, shared_memory_bytes = 0, combined_ver = 75\<rparr>,
       \<lparr>block_dimensions = 256, grid_dimensions = 32, shared_memory_bytes = 0, combined_ver = 0\<rparr>]"
     "\<lparr>block_dimensions = 128, grid_dimensions = 64, shared_memory_bytes = 0, combined_ver = 75\<rparr>"]
  by (simp add: launch_box_t_def TEST_SM_def)

subsection \<open>Declaring launch parameters\<close>

text \<open>
  C8.  Launch parameters declared without the shared memory size have size 0, and the
  three enumerators are the template arguments as given; the same holds through
  \<^verbatim>\<open>sm_launch_params_t\<close> and \<^verbatim>\<open>fallback_launch_params_t\<close>, for every argument that an
  \<^verbatim>\<open>unsigned int\<close> holds.
\<close>

theorem launch_params_default_shared_memory:
  "launch_params_t b g None
     = \<lparr>block_dimensions = b, grid_dimensions = g, shared_memory_bytes = 0\<rparr>
   \<and> launch_params_t b g (Some s)
     = \<lparr>block_dimensions = b, grid_dimensions = g, shared_memory_bytes = s\<rparr>
   \<and> sm_launch_params_t v [uint b, uint g]
     = Inr \<lparr>block_dimensions = b, grid_dimensions = g, shared_memory_bytes = 0, combined_ver = v\<rparr>
   \<and> sm_launch_params_t v [uint b, uint g, uint s]
     = Inr \<lparr>block_dimensions = b, grid_dimensions = g, shared_memory_bytes = s, combined_ver = v\<rparr>
   \<and> fallback_launch_params_t [uint b, uint g]
     = Inr \<lparr>block_dimensions = b, grid_dimensions = g, shared_memory_bytes = 0, combined_ver = 0\<rparr>"
proof -
  have u: "is_unsigned_int (uint w)" for w :: "32 word"
    using uint_lt2p [of w] by (simp add: is_unsigned_int_def)
  show ?thesis
    by (simp add: launch_params_t_def sm_launch_params_t_def fallback_launch_params_t_def
        launch_params.extend_def u)
qed




subsection \<open>The graph base class\<close>

text \<open>
  C10.  The getters return the numbers of vertices and edges given to the constructor; the
  default constructor gives 0 for both; \<^verbatim>\<open>is_directed\<close> is the \<^verbatim>\<open>directed\<close> member of the
  stored properties.
\<close>

theorem graph_base_getters:
  "get_number_of_vertices (graph_base_t2 p number_of_vertices number_of_edges) = number_of_vertices
   \<and> get_number_of_edges (graph_base_t2 p number_of_vertices number_of_edges) = number_of_edges
   \<and> get_number_of_vertices (graph_base_t3 number_of_vertices number_of_edges q) = number_of_vertices
   \<and> get_number_of_edges (graph_base_t3 number_of_vertices number_of_edges q) = number_of_edges
   \<and> get_number_of_vertices (graph_base_t0 p :: ('v::zero, 'e::zero) graph_base) = 0
   \<and> get_number_of_edges (graph_base_t0 p :: ('v::zero, 'e::zero) graph_base) = 0
   \<and> is_directed g = directed (member_properties g)
   \<and> is_directed (graph_base_t3 number_of_vertices number_of_edges q) = directed q
   \<and> is_directed (graph_base_t2 p number_of_vertices number_of_edges) = directed p"
  by (simp add: get_number_of_vertices_def get_number_of_edges_def is_directed_def
      graph_base_t0_def graph_base_t2_def graph_base_t3_def)

end
